theory Spec2Isabelle
  imports Complex_Main "HOL-Library.AList"
begin

section \<open>JavaScript objects used as lookup tables\<close>

text \<open>
  The key tables of \<^verbatim>\<open>EventManager\<close> are plain object literals, and the code reads them
  with \<^verbatim>\<open>table[name]\<close>. Such a read looks at the object's own properties first and at
  \<^verbatim>\<open>Object.prototype\<close> next, so a name such as \<^verbatim>\<open>toString\<close> finds the inherited method
  although no table holds it. A value read from a table is therefore a string (an own
  entry) or a member inherited from the prototype; \<open>None\<close> stands for \<^verbatim>\<open>undefined\<close>.
\<close>

datatype jsval = Str string | ProtoMember string

definition objectPrototype :: "string list" where
  "objectPrototype =
    [''constructor'', ''hasOwnProperty'', ''isPrototypeOf'', ''propertyIsEnumerable'',
     ''toLocaleString'', ''toString'', ''valueOf'', ''__proto__'', ''__defineGetter__'',
     ''__defineSetter__'', ''__lookupGetter__'', ''__lookupSetter__'']"

definition getProp :: "(string \<times> string) list \<Rightarrow> string \<Rightarrow> jsval option" where
  "getProp obj p =
     (case map_of obj p of
        Some v \<Rightarrow> Some (Str v)
      | None \<Rightarrow> if p \<in> set objectPrototype then Some (ProtoMember p) else None)"

text \<open>
  \<^verbatim>\<open>for (var k in obj)\<close> visits the own keys that are array indices first, in ascending
  numeric order, and the other keys next, in insertion order.
\<close>

definition isDigit :: "char \<Rightarrow> bool" where
  "isDigit c = (c \<in> set ''0123456789'')"

definition natOfDigits :: "string \<Rightarrow> nat" where
  "natOfDigits s = fold (\<lambda>c n. 10 * n + (of_char c - 48)) s 0"

definition isArrayIndex :: "string \<Rightarrow> bool" where
  "isArrayIndex s =
     (case s of
        [] \<Rightarrow> False
      | c # cs \<Rightarrow>
          list_all isDigit s \<and> (cs = [] \<or> c \<in> set ''123456789'')
          \<and> natOfDigits s < 2 ^ 32 - 1)"

definition forIn :: "(string \<times> 'v) list \<Rightarrow> (string \<times> 'v) list" where
  "forIn obj =
     sort_key (\<lambda>kv. natOfDigits (fst kv)) (filter (\<lambda>kv. isArrayIndex (fst kv)) obj)
     @ filter (\<lambda>kv. \<not> isArrayIndex (fst kv)) obj"

section \<open>The key tables of EventManager\<close>

text \<open>
  \<^verbatim>\<open>EventManager._keycodeMap\<close>: legacy numeric key codes to W3C codes. The property key of
  a numeric literal is its decimal string, which no inherited member is named by, so a
  read with a number finds an own entry or \<^verbatim>\<open>undefined\<close>. The source writes the
  entries 194 and 110 twice, with the same value.
\<close>

definition keycodeMap :: "(nat \<times> string) list" where
  "keycodeMap = [
    (49, ''Digit1''), (50, ''Digit2''), (51, ''Digit3''), (52, ''Digit4''), (53, ''Digit5''),
    (54, ''Digit6''), (55, ''Digit7''), (56, ''Digit8''), (57, ''Digit9''), (48, ''Digit0''),
    (65, ''KeyA''), (66, ''KeyB''), (67, ''KeyC''), (68, ''KeyD''), (69, ''KeyE''),
    (70, ''KeyF''), (71, ''KeyG''), (72, ''KeyH''), (73, ''KeyI''), (74, ''KeyJ''),
    (75, ''KeyK''), (76, ''KeyL''), (77, ''KeyM''), (78, ''KeyN''), (79, ''KeyO''),
    (80, ''KeyP''), (81, ''KeyQ''), (82, ''KeyR''), (83, ''KeyS''), (84, ''KeyT''),
    (85, ''KeyU''), (86, ''KeyV''), (87, ''KeyW''), (88, ''KeyX''), (89, ''KeyY''),
    (90, ''KeyZ''), (188, ''Comma''), (190, ''Period''), (186, ''Semicolon''),
    (222, ''Quote''), (219, ''BracketLeft''), (221, ''BracketRight''), (192, ''Backquote''),
    (220, ''Backslash''), (189, ''Minus''), (187, ''Equal''), (144, ''NumLock''),
    (96, ''Numpad0''), (97, ''Numpad1''), (98, ''Numpad2''), (99, ''Numpad3''),
    (100, ''Numpad4''), (101, ''Numpad5''), (102, ''Numpad6''), (103, ''Numpad7''),
    (104, ''Numpad8''), (105, ''Numpad9''), (107, ''NumpadAdd''), (194, ''NumpadComma''),
    (194, ''NumpadComma''), (110, ''NumpadDecimal''), (110, ''NumpadDecimal''),
    (111, ''NumpadDivide''), (13, ''NumpadEnter''), (12, ''NumpadEqual''),
    (106, ''NumpadMultiply''), (109, ''NumpadSubtract''), (37, ''ArrowLeft''),
    (38, ''ArrowUp''), (39, ''ArrowRight''), (40, ''ArrowDown''), (27, ''Escape''),
    (32, ''Space'')]"

text \<open>\<^verbatim>\<open>EventManager._pygletMap\<close>: pyglet key names to W3C codes.\<close>

definition pygletMap :: "(string \<times> string) list" where
  "pygletMap = [
    (''grave'', ''Backquote''), (''backslash'', ''Backslash''), (''backspace'', ''Backspace''),
    (''bracketleft'', ''BracketLeft''), (''bracketright'', ''BracketRight''),
    (''comma'', ''Comma''), (''0'', ''Digit0''), (''1'', ''Digit1''), (''2'', ''Digit2''),
    (''3'', ''Digit3''), (''4'', ''Digit4''), (''5'', ''Digit5''), (''6'', ''Digit6''),
    (''7'', ''Digit7''), (''8'', ''Digit8''), (''9'', ''Digit9''), (''equal'', ''Equal''),
    (''a'', ''KeyA''), (''b'', ''KeyB''), (''c'', ''KeyC''), (''d'', ''KeyD''),
    (''e'', ''KeyE''), (''f'', ''KeyF''), (''g'', ''KeyG''), (''h'', ''KeyH''),
    (''i'', ''KeyI''), (''j'', ''KeyJ''), (''k'', ''KeyK''), (''l'', ''KeyL''),
    (''m'', ''KeyM''), (''n'', ''KeyN''), (''o'', ''KeyO''), (''p'', ''KeyP''),
    (''q'', ''KeyQ''), (''r'', ''KeyR''), (''s'', ''KeyS''), (''t'', ''KeyT''),
    (''u'', ''KeyU''), (''v'', ''KeyV''), (''w'', ''KeyW''), (''x'', ''KeyX''),
    (''y'', ''KeyY''), (''z'', ''KeyZ''), (''minus'', ''Minus''), (''period'', ''Period''),
    (''apostrophe'', ''Quote''), (''semicolon'', ''Semicolon''), (''slash'', ''Slash''),
    (''escape'', ''Escape''), (''loption'', ''AltLeft''), (''roption'', ''AltRight''),
    (''capslock'', ''CapsLock''), (''lcontrol'', ''ControlLeft''),
    (''rcontrol'', ''ControlRight''), (''return'', ''Enter''), (''lcommand'', ''MetaLeft''),
    (''rcommand'', ''MetaRight''), (''lshift'', ''ShiftLeft''), (''rshift'', ''ShiftRight''),
    (''space'', ''Space''), (''tab'', ''Tab''), (''down'', ''ArrowDown''),
    (''left'', ''ArrowLeft''), (''right'', ''ArrowRight''), (''up'', ''ArrowUp''),
    (''num_0'', ''Numpad0''), (''num_1'', ''Numpad1''), (''num_2'', ''Numpad2''),
    (''num_3'', ''Numpad3''), (''num_4'', ''Numpad4''), (''num_5'', ''Numpad5''),
    (''num_6'', ''Numpad6''), (''num_7'', ''Numpad7''), (''num_8'', ''Numpad8''),
    (''num_9'', ''Numpad9''), (''num_decimal'', ''NumpadDecimal''),
    (''num_enter'', ''NumpadEnter''), (''num_add'', ''NumpadAdd''),
    (''num_subtract'', ''NumpadSubtract''), (''num_multiply'', ''NumpadMultiply''),
    (''num_divide'', ''NumpadDivide''), (''num_equal'', ''NumpadEqual''),
    (''num_numlock'', ''NumpadNumlock'')]"

text \<open>
  \<^verbatim>\<open>EventManager._reversePygletMap\<close> starts empty and is filled by the constructor:
  \<^verbatim>\<open>for (var keyName in _pygletMap) _reversePygletMap[_pygletMap[keyName]] = keyName\<close>.
  An assignment to a key already present overwrites its value.
\<close>

definition populateReverse ::
  "(string \<times> string) list \<Rightarrow> (string \<times> string) list \<Rightarrow> (string \<times> string) list" where
  "populateReverse table rev0 =
     fold (\<lambda>(keyName, code) m. AList.update code keyName m) (forIn table) rev0"

definition reversePygletMap :: "(string \<times> string) list" where
  "reversePygletMap = populateReverse pygletMap []"

section \<open>EventManager._pyglet2w3c\<close>

text \<open>
  The loop pushes the name itself when \<^verbatim>\<open>typeof _pygletMap[name] === 'undefined'\<close> and the
  value read from the table otherwise.
\<close>

primrec pyglet2w3c_loop :: "string list \<Rightarrow> jsval list \<Rightarrow> jsval list" where
  "pyglet2w3c_loop [] w3cKeyList = w3cKeyList"
| "pyglet2w3c_loop (name # rest) w3cKeyList =
     (case getProp pygletMap name of
        None \<Rightarrow> pyglet2w3c_loop rest (w3cKeyList @ [Str name])
      | Some v \<Rightarrow> pyglet2w3c_loop rest (w3cKeyList @ [v]))"

definition pyglet2w3c :: "string list \<Rightarrow> jsval list" where
  "pyglet2w3c pygletKeyList = pyglet2w3c_loop pygletKeyList []"

section \<open>The state of an EventManager\<close>

text \<open>
  A buffered key press, as the keydown listener builds it. The fields
  \<^verbatim>\<open>code\<close>, \<^verbatim>\<open>key\<close> and \<^verbatim>\<open>keyCode\<close> are those of the DOM KeyboardEvent (two strings and a
  number); \<^verbatim>\<open>code\<close> is \<^verbatim>\<open>undefined\<close> (\<open>None\<close>) in a browser without \<^verbatim>\<open>KeyboardEvent.code\<close>,
  the case \<^verbatim>\<open>_keycodeMap\<close> is there for. Times are JavaScript numbers; the model leaves
  their type \<open>'n\<close> open and uses only the operations the code applies to them.
\<close>

record 'n KeyEvent =
  code :: "string option"
  key :: string
  keyCode :: nat
  timestamp :: 'n

text \<open>
  \<^verbatim>\<open>Clock\<close> (util/Clock) is used through \<^verbatim>\<open>getLastResetTime()\<close> and \<^verbatim>\<open>reset()\<close> only: a
  clock is the time of its last reset.
\<close>

record 'n Clock =
  lastResetTime :: 'n

definition getLastResetTime :: "'n Clock \<Rightarrow> 'n" where
  "getLastResetTime clock = lastResetTime clock"

text \<open>
  Modelled from the spec: \<^verbatim>\<open>Clock.reset()\<close> is not part of the sources at hand; the
  move-timing reference is reset to the current time, given here as \<open>now\<close>.
\<close>

definition reset :: "'n \<Rightarrow> 'n Clock \<Rightarrow> 'n Clock" where
  "reset now clock = clock\<lparr>lastResetTime := now\<rparr>"

text \<open>
  The arrays \<^verbatim>\<open>pressed\<close>, \<^verbatim>\<open>clocks\<close> and \<^verbatim>\<open>times\<close> are indexed by \<^verbatim>\<open>event.button\<close>. A
  JavaScript array is a map from indices to values: a write at any index stores the
  value, a read at an index never written yields \<^verbatim>\<open>undefined\<close>.
\<close>

record 'n ButtonInfo =
  pressed :: "nat \<rightharpoonup> nat"
  clocks :: "nat \<rightharpoonup> 'n Clock"
  times :: "nat \<rightharpoonup> 'n"

record 'n MouseInfo =
  pos :: "'n \<times> 'n"
  wheelRel :: "'n \<times> 'n"
  buttons :: "'n ButtonInfo"
  moveClock :: "'n Clock"

record 'n EventManager =
  keyBuffer :: "'n KeyEvent list"
  mouseInfo :: "'n MouseInfo"

text \<open>
  The constructor. Each \<^verbatim>\<open>new Clock()\<close> is a parameter: the three button clocks and the
  move clock.
\<close>

definition newEventManager ::
  "'n Clock \<Rightarrow> 'n Clock \<Rightarrow> 'n Clock \<Rightarrow> 'n Clock \<Rightarrow> ('n::zero) EventManager" where
  "newEventManager clock0 clock1 clock2 clockM =
     \<lparr>keyBuffer = [],
      mouseInfo =
        \<lparr>pos = (0, 0),
         wheelRel = (0, 0),
         buttons =
           \<lparr>pressed = [0 \<mapsto> 0, 1 \<mapsto> 0, 2 \<mapsto> 0],
            clocks = [0 \<mapsto> clock0, 1 \<mapsto> clock1, 2 \<mapsto> clock2],
            times = [0 \<mapsto> 0, 1 \<mapsto> 0, 2 \<mapsto> 0]\<rparr>,
         moveClock = clockM\<rparr>\<rparr>"

section \<open>EventManager.getKeys\<close>

text \<open>
  \<^verbatim>\<open>Array.prototype.indexOf\<close>: the first index holding a value strictly equal to the one
  searched, or \<open>-1\<close>. The value searched may be \<^verbatim>\<open>undefined\<close> (\<open>None\<close>), which no element
  of a key list is.
\<close>

primrec indexOf :: "jsval list \<Rightarrow> jsval option \<Rightarrow> int" where
  "indexOf [] v = - 1"
| "indexOf (x # xs) v =
     (if Some x = v then 0
      else (let i = indexOf xs v in if i < 0 then - 1 else i + 1))"

text \<open>
  \<^verbatim>\<open>_reversePygletMap[keyList[index]]\<close>: the property key is the element as a string. An
  inherited member converts to a string that names no property.
\<close>

definition reverseLookup :: "jsval \<Rightarrow> jsval option" where
  "reverseLookup v =
     (case v of Str s \<Rightarrow> getProp reversePygletMap s | ProtoMember _ \<Rightarrow> None)"

text \<open>\<^verbatim>\<open>_reversePygletMap[key.code]\<close>: an \<^verbatim>\<open>undefined\<close> code reads the property of that name.\<close>

definition propertyKey :: "string option \<Rightarrow> string" where
  "propertyKey v = (case v of Some s \<Rightarrow> s | None \<Rightarrow> ''undefined'')"

text \<open>The \<^verbatim>\<open>keyId\<close> that one pass of the loop body computes; \<open>None\<close> is \<^verbatim>\<open>null\<close> or \<^verbatim>\<open>undefined\<close>.\<close>

definition keyIdOf :: "jsval list option \<Rightarrow> 'n KeyEvent \<Rightarrow> jsval option" where
  "keyIdOf keyList k =
     (case keyList of
        Some kl \<Rightarrow>
          (let index = indexOf kl (map_option Str (code k));
               index = (if index < 0
                        then indexOf kl (map_option Str (map_of keycodeMap (keyCode k)))
                        else index)
           in if index \<ge> 0 then reverseLookup (kl ! nat index) else None)
      | None \<Rightarrow> getProp reversePygletMap (propertyKey (code k)))"

text \<open>An element of the returned array: \<^verbatim>\<open>keyId\<close>, or \<^verbatim>\<open>[keyId, key.timestamp]\<close>.\<close>

datatype 'n keyResult = KeyName jsval | KeyNameTime jsval 'n

definition pushed :: "bool \<Rightarrow> 'n KeyEvent \<Rightarrow> jsval \<Rightarrow> 'n keyResult" where
  "pushed timeStamped k keyId =
     (if timeStamped then KeyNameTime keyId (timestamp k) else KeyName keyId)"

primrec getKeys_loop ::
  "jsval list option \<Rightarrow> bool \<Rightarrow> 'n KeyEvent list \<Rightarrow> 'n KeyEvent list \<Rightarrow> 'n keyResult list
   \<Rightarrow> 'n KeyEvent list \<times> 'n keyResult list" where
  "getKeys_loop keyList timeStamped [] newBuffer keys = (newBuffer, keys)"
| "getKeys_loop keyList timeStamped (k # rest) newBuffer keys =
     (case keyIdOf keyList k of
        Some keyId \<Rightarrow>
          getKeys_loop keyList timeStamped rest newBuffer (keys @ [pushed timeStamped k keyId])
      | None \<Rightarrow>
          getKeys_loop keyList timeStamped rest (newBuffer @ [k]) keys)"

definition getKeys ::
  "string list option \<Rightarrow> bool \<Rightarrow> 'n EventManager \<Rightarrow> 'n EventManager \<times> 'n keyResult list" where
  "getKeys keyList timeStamped em =
     (let keyList = map_option pyglet2w3c keyList;
          (newBuffer, keys) = getKeys_loop keyList timeStamped (keyBuffer em) [] []
      in (em\<lparr>keyBuffer := newBuffer\<rparr>, keys))"

text \<open>
  An event matches a normalised filter when its \<^verbatim>\<open>code\<close> is in the filter or, failing
  that, when the W3C code of its legacy numeric \<^verbatim>\<open>keyCode\<close> is.
\<close>

definition matchesFilter :: "jsval list \<Rightarrow> 'n KeyEvent \<Rightarrow> bool" where
  "matchesFilter kl k =
     ((case code k of Some c \<Rightarrow> Str c \<in> set kl | None \<Rightarrow> False) \<or>
      (case map_of keycodeMap (keyCode k) of Some c \<Rightarrow> Str c \<in> set kl | None \<Rightarrow> False))"

text \<open>
  The reading of the specification: the standard code under which an event matches the
  filter (its own code first, the code of its legacy number next), and the legacy name
  that the reverse table holds for that code.
\<close>

definition fallbackEntry :: "jsval list \<Rightarrow> 'n KeyEvent \<Rightarrow> string option" where
  "fallbackEntry kl k =
     (case map_of keycodeMap (keyCode k) of
        Some c \<Rightarrow> if Str c \<in> set kl then Some c else None
      | None \<Rightarrow> None)"

definition matchedEntry :: "jsval list \<Rightarrow> 'n KeyEvent \<Rightarrow> string option" where
  "matchedEntry kl k =
     (case code k of
        Some c \<Rightarrow> if Str c \<in> set kl then Some c else fallbackEntry kl k
      | None \<Rightarrow> fallbackEntry kl k)"

definition legacyNameOf :: "jsval list \<Rightarrow> 'n KeyEvent \<Rightarrow> jsval option" where
  "legacyNameOf kl k =
     (case matchedEntry kl k of Some c \<Rightarrow> getProp reversePygletMap c | None \<Rightarrow> None)"

section \<open>Clearing the buffer\<close>

definition clearKeys :: "'n EventManager \<Rightarrow> 'n EventManager" where
  "clearKeys em = em\<lparr>keyBuffer := []\<rparr>"

definition clearEvents :: "'a \<Rightarrow> 'n EventManager \<Rightarrow> 'n EventManager" where
  "clearEvents attribs em = clearKeys em"

section \<open>The listeners\<close>

text \<open>
  A call of a method on \<^verbatim>\<open>undefined\<close> throws a TypeError; the listener stops there, and
  what it wrote before stays written.
\<close>

datatype error = TypeError

record 'n PointerEvent =
  button :: nat
  offsetX :: 'n
  offsetY :: 'n

text \<open>
  \<open>now\<close> is what \<^verbatim>\<open>_psychoJS._monotonicClock.getTime()\<close> returns when the listener runs.
\<close>

definition pointerdown ::
  "'n PointerEvent \<Rightarrow> 'n \<Rightarrow> ('n::minus) EventManager
   \<Rightarrow> (error \<times> 'n EventManager) + 'n EventManager" where
  "pointerdown event now em =
     (let mi = mouseInfo em;
          b = (buttons mi)\<lparr>pressed := (pressed (buttons mi))(button event \<mapsto> 1)\<rparr>
      in case clocks b (button event) of
           None \<Rightarrow> Inl (TypeError, em\<lparr>mouseInfo := mi\<lparr>buttons := b\<rparr>\<rparr>)
         | Some clock \<Rightarrow>
             Inr (em\<lparr>mouseInfo :=
                    mi\<lparr>buttons :=
                         b\<lparr>times := (times b)(button event \<mapsto> now - getLastResetTime clock)\<rparr>,
                       pos := (offsetX event, offsetY event)\<rparr>\<rparr>))"


definition pointermove :: "'n PointerEvent \<Rightarrow> 'n \<Rightarrow> 'n EventManager \<Rightarrow> 'n EventManager" where
  "pointermove event now em =
     em\<lparr>mouseInfo :=
          (mouseInfo em)\<lparr>pos := (offsetX event, offsetY event),
                          moveClock := reset now (moveClock (mouseInfo em))\<rparr>\<rparr>"

definition wheel :: "'n \<Rightarrow> 'n \<Rightarrow> ('n::plus) EventManager \<Rightarrow> 'n EventManager" where
  "wheel deltaX deltaY em =
     em\<lparr>mouseInfo :=
          (mouseInfo em)\<lparr>wheelRel := (fst (wheelRel (mouseInfo em)) + deltaX,
                                       snd (wheelRel (mouseInfo em)) + deltaY)\<rparr>\<rparr>"

text \<open>
  The keydown listener; \<open>referenceTime\<close> is what \<^verbatim>\<open>MonotonicClock.getReferenceTime()\<close>
  returns when it runs. The trace message sent to the logger is not modelled.
\<close>

definition keydown ::
  "string option \<Rightarrow> string \<Rightarrow> nat \<Rightarrow> 'n \<Rightarrow> ('n::{inverse,numeral}) EventManager \<Rightarrow> 'n EventManager" where
  "keydown e_code e_key e_keyCode referenceTime em =
     em\<lparr>keyBuffer := keyBuffer em @
          [\<lparr>code = e_code, key = e_key, keyCode = e_keyCode,
            timestamp = referenceTime / 1000\<rparr>]\<rparr>"

section \<open>The state of a Window\<close>

text \<open>An entry of \<^verbatim>\<open>_msgToBeLogged\<close>; \<^verbatim>\<open>obj\<close> is \<^verbatim>\<open>undefined\<close> (\<open>None\<close>) when not given.\<close>

record 'o LogEntry =
  msg :: string
  level :: int
  obj :: "'o option"

text \<open>
  A stimulus of the draw list, as far as the window touches it: the flag
  \<^verbatim>\<open>_needUpdate\<close> and the display object \<^verbatim>\<open>_pixi\<close>. Its method \<^verbatim>\<open>_updateIfNeeded()\<close> belongs
  to the stimulus classes and is a parameter \<open>upd\<close> of the functions below.
\<close>

record 'p Stim =
  needUpdate :: bool
  pixi :: 'p

record ('o, 'f, 'a, 'p) Window =
  msgToBeLogged :: "'o LogEntry list"
  drawList :: "'p Stim list"
  windowNeedUpdate :: bool
  colorInt :: int
  frameCount :: nat
  flipCallback :: "'f option"
  flipCallbackArgs :: "'a list"

text \<open>
  The calls that a frame makes on its collaborators (the PIXI renderer and root
  container, the logger, the flip callback, the stimuli), in the order it makes them.
\<close>

datatype ('o, 'f, 'a, 'p, 'n) effect =
    RendererRender
  | GlReadPixels
  | LoggerLog string int 'n "'o option"
  | FlipCallback 'f "'a list"
  | SetBackgroundColor int
  | RemoveChild 'p
  | StimUpdate "'p Stim"
  | AddChild 'p

primrec isFlipCallback :: "('o, 'f, 'a, 'p, 'n) effect \<Rightarrow> bool" where
  "isFlipCallback RendererRender = False"
| "isFlipCallback GlReadPixels = False"
| "isFlipCallback (LoggerLog m l t ob) = False"
| "isFlipCallback (FlipCallback f args) = True"
| "isFlipCallback (SetBackgroundColor c) = False"
| "isFlipCallback (RemoveChild p) = False"
| "isFlipCallback (StimUpdate s) = False"
| "isFlipCallback (AddChild p) = False"

primrec isLoggerLog :: "('o, 'f, 'a, 'p, 'n) effect \<Rightarrow> bool" where
  "isLoggerLog RendererRender = False"
| "isLoggerLog GlReadPixels = False"
| "isLoggerLog (LoggerLog m l t ob) = True"
| "isLoggerLog (FlipCallback f args) = False"
| "isLoggerLog (SetBackgroundColor c) = False"
| "isLoggerLog (RemoveChild p) = False"
| "isLoggerLog (StimUpdate s) = False"
| "isLoggerLog (AddChild p) = False"

primrec logTimeOf :: "('o, 'f, 'a, 'p, 'n) effect \<Rightarrow> 'n option" where
  "logTimeOf RendererRender = None"
| "logTimeOf GlReadPixels = None"
| "logTimeOf (LoggerLog m l t ob) = Some t"
| "logTimeOf (FlipCallback f args) = None"
| "logTimeOf (SetBackgroundColor c) = None"
| "logTimeOf (RemoveChild p) = None"
| "logTimeOf (StimUpdate s) = None"
| "logTimeOf (AddChild p) = None"

text \<open>\<open>precedes a b tr\<close>: some occurrence of \<open>a\<close> in \<open>tr\<close> comes before some occurrence of \<open>b\<close>.\<close>

primrec precedes :: "'e \<Rightarrow> 'e \<Rightarrow> 'e list \<Rightarrow> bool" where
  "precedes a b [] = False"
| "precedes a b (x # xs) = ((x = a \<and> b \<in> set xs) \<or> precedes a b xs)"

section \<open>Window.logOnFlip and Window.callOnFlip\<close>

definition logOnFlip ::
  "string \<Rightarrow> int \<Rightarrow> 'o option \<Rightarrow> ('o, 'f, 'a, 'p) Window \<Rightarrow> ('o, 'f, 'a, 'p) Window" where
  "logOnFlip m l ob w = w\<lparr>msgToBeLogged := msgToBeLogged w @ [\<lparr>msg = m, level = l, obj = ob\<rparr>]\<rparr>"

text \<open>
  The first argument of \<^verbatim>\<open>callOnFlip\<close> may be \<^verbatim>\<open>undefined\<close>. The constructor sets both fields
  to \<^verbatim>\<open>undefined\<close>; the arguments are read only under a defined callback, which only
  \<^verbatim>\<open>callOnFlip\<close> stores, together with its arguments.
\<close>

definition callOnFlip ::
  "'f option \<Rightarrow> 'a list \<Rightarrow> ('o, 'f, 'a, 'p) Window \<Rightarrow> ('o, 'f, 'a, 'p) Window" where
  "callOnFlip callback args w = w\<lparr>flipCallback := callback, flipCallbackArgs := args\<rparr>"

section \<open>Window._writeLogOnFlip\<close>

text \<open>\<open>logTime\<close> is what \<^verbatim>\<open>MonotonicClock.getReferenceTime()\<close> returns at the top of the method.\<close>

primrec writeLog_loop ::
  "'n \<Rightarrow> 'o LogEntry list \<Rightarrow> ('o, 'f, 'a, 'p, 'n) effect list" where
  "writeLog_loop logTime [] = []"
| "writeLog_loop logTime (entry # rest) =
     LoggerLog (msg entry) (level entry) logTime (obj entry) # writeLog_loop logTime rest"

definition writeLogOnFlip ::
  "'n \<Rightarrow> ('o, 'f, 'a, 'p) Window
   \<Rightarrow> ('o, 'f, 'a, 'p) Window \<times> ('o, 'f, 'a, 'p, 'n) effect list" where
  "writeLogOnFlip logTime w =
     (w\<lparr>msgToBeLogged := []\<rparr>, writeLog_loop logTime (msgToBeLogged w))"

section \<open>Window._updateIfNeeded and Window._refresh\<close>

definition updateIfNeeded ::
  "('o, 'f, 'a, 'p) Window \<Rightarrow> ('o, 'f, 'a, 'p) Window \<times> ('o, 'f, 'a, 'p, 'n) effect list" where
  "updateIfNeeded w =
     (if windowNeedUpdate w
      then (w\<lparr>windowNeedUpdate := False\<rparr>, [SetBackgroundColor (colorInt w)])
      else (w, []))"

primrec refresh_loop ::
  "('p Stim \<Rightarrow> 'p Stim) \<Rightarrow> 'p Stim list \<Rightarrow> 'p Stim list \<times> ('o, 'f, 'a, 'p, 'n) effect list" where
  "refresh_loop upd [] = ([], [])"
| "refresh_loop upd (stim # rest) =
     (if needUpdate stim
      then (let stim' = upd stim; (rest', effs) = refresh_loop upd rest
            in (stim' # rest',
                [RemoveChild (pixi stim), StimUpdate stim, AddChild (pixi stim')] @ effs))
      else (let (rest', effs) = refresh_loop upd rest in (stim # rest', effs)))"

definition refresh ::
  "('p Stim \<Rightarrow> 'p Stim) \<Rightarrow> ('o, 'f, 'a, 'p) Window
   \<Rightarrow> ('o, 'f, 'a, 'p) Window \<times> ('o, 'f, 'a, 'p, 'n) effect list" where
  "refresh upd w =
     (let (w1, effs1) = updateIfNeeded w;
          (stims, effs2) = refresh_loop upd (drawList w1)
      in (w1\<lparr>drawList := stims\<rparr>, effs1 @ effs2))"

section \<open>Window.render\<close>

text \<open>
  One tick of the render loop. \<open>run f args\<close> is what the body of the callback \<open>f\<close>, called
  with \<open>args\<close>, does to the window; the calls that this body makes itself are not part of
  the trace.
\<close>

definition render ::
  "('p Stim \<Rightarrow> 'p Stim) \<Rightarrow> ('f \<Rightarrow> 'a list \<Rightarrow> ('o, 'f, 'a, 'p) Window \<Rightarrow> ('o, 'f, 'a, 'p) Window)
   \<Rightarrow> 'n \<Rightarrow> ('o, 'f, 'a, 'p) Window
   \<Rightarrow> ('o, 'f, 'a, 'p) Window \<times> ('o, 'f, 'a, 'p, 'n) effect list" where
  "render upd run logTime w =
     (let w1 = w\<lparr>frameCount := frameCount w + 1\<rparr>;
          effs1 = [RendererRender, GlReadPixels];
          (w2, effs2) = writeLogOnFlip logTime w1;
          (w3, effs3) =
            (case flipCallback w2 of
               None \<Rightarrow> (w2, [])
             | Some f \<Rightarrow> (run f (flipCallbackArgs w2) w2, [FlipCallback f (flipCallbackArgs w2)]));
          (w4, effs4) = refresh upd w3
      in (w4, effs1 @ effs2 @ effs3 @ effs4))"

section \<open>Example states\<close>

text \<open>A press of F1 (code \<^verbatim>\<open>F1\<close>, keyCode 112), a key that has no pyglet name.\<close>

definition pressF1 :: "real KeyEvent" where
  "pressF1 = \<lparr>code = Some ''F1'', key = ''F1'', keyCode = 112, timestamp = 5\<rparr>"

definition managerF1 :: "real EventManager" where
  "managerF1 =
     (newEventManager \<lparr>lastResetTime = 2\<rparr> \<lparr>lastResetTime = 2\<rparr> \<lparr>lastResetTime = 2\<rparr>
        \<lparr>lastResetTime = 2\<rparr>)\<lparr>keyBuffer := [pressF1]\<rparr>"


text \<open>
  A window with two queued messages, one stimulus awaiting its update, and the callback
  number 0 registered with the arguments 1 and 2. The update of a stimulus clears its
  flag; the body of the callback leaves the window alone.
\<close>

definition flaggedStim :: "nat Stim" where
  "flaggedStim = \<lparr>needUpdate = True, pixi = 7\<rparr>"

definition clearFlag :: "nat Stim \<Rightarrow> nat Stim" where
  "clearFlag stim = stim\<lparr>needUpdate := False\<rparr>"

definition idleBody ::
  "nat \<Rightarrow> nat list \<Rightarrow> (unit, nat, nat, nat) Window \<Rightarrow> (unit, nat, nat, nat) Window" where
  "idleBody f args w = w"

definition busyWindow :: "(unit, nat, nat, nat) Window" where
  "busyWindow =
     \<lparr>msgToBeLogged = [\<lparr>msg = ''trial start'', level = 20, obj = None\<rparr>,
                       \<lparr>msg = ''stimulus on'', level = 22, obj = Some ()\<rparr>],
      drawList = [flaggedStim],
      windowNeedUpdate = False,
      colorInt = 0,
      frameCount = 0,
      flipCallback = Some 0,
      flipCallbackArgs = [1, 2]\<rparr>"

section \<open>Facts about the key tables\<close>

lemma set_forIn: "set (forIn table) = set table"
  by (auto simp: forIn_def)

lemma map_of_populate_fold:
  "map_of (fold (\<lambda>(keyName, c) m. AList.update c keyName m) xs m0) =
   map_of m0 ++ map_of (rev (map (\<lambda>(keyName, c). (c, keyName)) xs))"
proof (induction xs arbitrary: m0)
  case Nil
  show ?case by simp
next
  case (Cons x xs)
  obtain n c where x: "x = (n, c)" by (cases x)
  show ?case
    by (auto simp add: x Cons.IH update_conv' fun_eq_iff map_add_def split: option.splits)
qed

text \<open>Every entry of the reverse table comes from an entry of the pyglet table.\<close>

lemma reverse_sound:
  assumes "map_of reversePygletMap c = Some n"
  shows "(n, c) \<in> set pygletMap"
proof -
  from assms have "map_of (rev (map (\<lambda>(keyName, c). (c, keyName)) (forIn pygletMap))) c = Some n"
    by (simp add: reversePygletMap_def populateReverse_def map_of_populate_fold)
  then have "(c, n) \<in> set (rev (map (\<lambda>(keyName, c). (c, keyName)) (forIn pygletMap)))"
    by (rule map_of_SomeD)
  then show ?thesis by (auto simp: set_forIn)
qed

text \<open>Every code of the pyglet table has an entry in the reverse table.\<close>

lemma reverse_complete:
  assumes "(n, c) \<in> set pygletMap"
  shows "\<exists>n'. map_of reversePygletMap c = Some n'"
proof -
  from assms have "c \<in> fst ` set (rev (map (\<lambda>(keyName, c). (c, keyName)) (forIn pygletMap)))"
    by (force simp: set_forIn)
  then have "map_of (rev (map (\<lambda>(keyName, c). (c, keyName)) (forIn pygletMap))) c \<noteq> None"
    by (simp only: map_of_eq_None_iff not_not)
  then show ?thesis
    by (auto simp add: reversePygletMap_def populateReverse_def map_of_populate_fold)
qed

lemma distinct_pygletMap_keys: "distinct (map fst pygletMap)"
  unfolding pygletMap_def by simp

lemma distinct_pygletMap_codes: "distinct (map snd pygletMap)"
  unfolding pygletMap_def by simp

lemma pygletMap_unique_name:
  assumes "(n, c) \<in> set pygletMap"
  shows "\<exists>!name. map_of pygletMap name = Some c"
proof
  show "map_of pygletMap n = Some c"
    using assms distinct_pygletMap_keys by simp
next
  fix name
  assume "map_of pygletMap name = Some c"
  then have "(name, c) \<in> set pygletMap" by (rule map_of_SomeD)
  with assms show "name = n"
    using distinct_pygletMap_codes
    by (metis distinct_map inj_on_def snd_conv fst_conv)
qed

lemma pyglet2w3c_loop_map:
  "pyglet2w3c_loop names acc =
   acc @ map (\<lambda>n. case getProp pygletMap n of None \<Rightarrow> Str n | Some v \<Rightarrow> v) names"
  by (induction names arbitrary: acc) (auto split: option.splits)

lemma pyglet2w3c_map:
  "pyglet2w3c names = map (\<lambda>n. case getProp pygletMap n of None \<Rightarrow> Str n | Some v \<Rightarrow> v) names"
  by (simp add: pyglet2w3c_def pyglet2w3c_loop_map)

text \<open>
  Outside the names of the inherited members, \<^verbatim>\<open>_pyglet2w3c\<close> maps a table key to its
  entry and passes any other name through, one output per input and in order.
\<close>

lemma pyglet2w3c_own_names:
  assumes "set names \<inter> set objectPrototype = {}"
  shows "pyglet2w3c names =
     map (\<lambda>n. case map_of pygletMap n of None \<Rightarrow> Str n | Some c \<Rightarrow> Str c) names"
proof -
  have "(case getProp pygletMap n of None \<Rightarrow> Str n | Some v \<Rightarrow> v) =
        (case map_of pygletMap n of None \<Rightarrow> Str n | Some c \<Rightarrow> Str c)"
    if "n \<in> set names" for n
    using that assms by (auto simp: getProp_def split: option.splits)
  then show ?thesis by (simp add: pyglet2w3c_map)
qed

section \<open>Facts about getKeys\<close>

lemma indexOf_neg_iff: "indexOf xs v < 0 \<longleftrightarrow> (\<forall>x \<in> set xs. Some x \<noteq> v)"
  by (induction xs) (auto simp: Let_def)

lemma indexOf_nth: "0 \<le> indexOf xs v \<Longrightarrow> Some (xs ! nat (indexOf xs v)) = v"
proof (induction xs)
  case Nil
  then show ?case by simp
next
  case (Cons x xs)
  show ?case
  proof (cases "Some x = v")
    case True
    then show ?thesis by simp
  next
    case False
    with Cons.prems have nonneg: "0 \<le> indexOf xs v"
      by (simp add: Let_def split: if_splits)
    then have "nat (indexOf xs v + 1) = Suc (nat (indexOf xs v))" by simp
    with False nonneg Cons.IH show ?thesis by (simp add: Let_def)
  qed
qed

text \<open>What the read at the index found gives, for a searched string or \<^verbatim>\<open>undefined\<close>.\<close>

lemma lookup_at_index:
  "(if 0 \<le> indexOf kl (map_option Str x)
    then reverseLookup (kl ! nat (indexOf kl (map_option Str x))) else None) =
   (case x of
      Some c \<Rightarrow> if Str c \<in> set kl then getProp reversePygletMap c else None
    | None \<Rightarrow> None)"
proof (cases x)
  case None
  have "indexOf kl None < 0" by (simp add: indexOf_neg_iff)
  with None show ?thesis by simp
next
  case (Some c)
  show ?thesis
  proof (cases "Str c \<in> set kl")
    case True
    then have nonneg: "0 \<le> indexOf kl (Some (Str c))"
      using indexOf_neg_iff [of kl "Some (Str c)"] by fastforce
    from indexOf_nth [OF nonneg] have "kl ! nat (indexOf kl (Some (Str c))) = Str c"
      by simp
    with Some True nonneg show ?thesis by (simp add: reverseLookup_def)
  next
    case False
    then have "indexOf kl (Some (Str c)) < 0"
      using indexOf_neg_iff [of kl "Some (Str c)"] by fastforce
    with Some False show ?thesis by simp
  qed
qed

lemma fallback_lookup:
  "(if 0 \<le> indexOf kl (map_option Str (map_of keycodeMap (keyCode k)))
    then reverseLookup (kl ! nat (indexOf kl (map_option Str (map_of keycodeMap (keyCode k)))))
    else None) =
   (case fallbackEntry kl k of Some c \<Rightarrow> getProp reversePygletMap c | None \<Rightarrow> None)"
  by (simp only: lookup_at_index) (simp add: fallbackEntry_def split: option.splits)

text \<open>The loop body computes the legacy name of the matched entry.\<close>

lemma keyIdOf_filter: "keyIdOf (Some kl) k = legacyNameOf kl k"
proof (cases "indexOf kl (map_option Str (code k)) < 0")
  case True
  then have absent: "\<forall>c. code k = Some c \<longrightarrow> Str c \<notin> set kl"
    by (auto simp: indexOf_neg_iff)
  have "keyIdOf (Some kl) k =
      (case fallbackEntry kl k of Some c \<Rightarrow> getProp reversePygletMap c | None \<Rightarrow> None)"
    using True fallback_lookup [of kl k] by (simp add: keyIdOf_def Let_def split: if_splits)
  also have "\<dots> = legacyNameOf kl k"
    using absent by (simp add: legacyNameOf_def matchedEntry_def split: option.splits)
  finally show ?thesis .
next
  case False
  then have nonneg: "0 \<le> indexOf kl (map_option Str (code k))" by simp
  then obtain c where c: "code k = Some c" "Str c \<in> set kl"
    using indexOf_neg_iff [of kl "map_option Str (code k)"] by (cases "code k") auto
  have "keyIdOf (Some kl) k = getProp reversePygletMap c"
    using False nonneg lookup_at_index [of kl "code k"] c
    by (simp add: keyIdOf_def Let_def split: if_splits)
  also have "\<dots> = legacyNameOf kl k"
    using c by (simp add: legacyNameOf_def matchedEntry_def)
  finally show ?thesis .
qed

lemma getKeys_loop_split:
  "getKeys_loop keyList ts buf newBuffer keys =
   (newBuffer @ filter (\<lambda>k. keyIdOf keyList k = None) buf,
    keys @ List.map_filter (\<lambda>k. map_option (pushed ts k) (keyIdOf keyList k)) buf)"
  by (induction buf arbitrary: newBuffer keys)
     (auto split: option.splits)

lemma getKeys_split:
  "getKeys keyList ts em =
   (em\<lparr>keyBuffer := filter (\<lambda>k. keyIdOf (map_option pyglet2w3c keyList) k = None) (keyBuffer em)\<rparr>,
    List.map_filter (\<lambda>k. map_option (pushed ts k) (keyIdOf (map_option pyglet2w3c keyList) k))
      (keyBuffer em))"
  by (simp add: getKeys_def getKeys_loop_split Let_def)

lemma matchesFilter_matchedEntry: "matchesFilter kl k \<longleftrightarrow> matchedEntry kl k \<noteq> None"
  by (auto simp: matchesFilter_def matchedEntry_def fallbackEntry_def split: option.splits)

lemma no_legacy_name_F1: "getProp reversePygletMap ''F1'' = None"
proof -
  have "map_of reversePygletMap ''F1'' = None"
  proof (cases "map_of reversePygletMap ''F1''")
    case None
    then show ?thesis .
  next
    case (Some n)
    then have "(n, ''F1'') \<in> set pygletMap" by (rule reverse_sound)
    then show ?thesis by (simp add: pygletMap_def)
  qed
  then show ?thesis by (simp add: getProp_def objectPrototype_def)
qed

text \<open>
  What \<^verbatim>\<open>getKeys\<close> with a filter computes: it keeps the events for which the loop found
  no legacy name and returns the names found for the others, in buffer order.
\<close>

lemma getKeys_filter_result:
  "keyBuffer (fst (getKeys (Some keyList) ts em)) =
     filter (\<lambda>k. legacyNameOf (pyglet2w3c keyList) k = None) (keyBuffer em)
   \<and> snd (getKeys (Some keyList) ts em) =
     List.map_filter (\<lambda>k. map_option (pushed ts k) (legacyNameOf (pyglet2w3c keyList) k))
       (keyBuffer em)
   \<and> mouseInfo (fst (getKeys (Some keyList) ts em)) = mouseInfo em"
  by (simp add: getKeys_split keyIdOf_filter)

text \<open>
  No call of \<^verbatim>\<open>getKeys\<close>, with any filter or with none, returns or removes a press of F1.
\<close>

lemma pressF1_keyId: "keyIdOf keyList pressF1 = None"
proof (cases keyList)
  case None
  then show ?thesis
    by (simp add: keyIdOf_def pressF1_def propertyKey_def no_legacy_name_F1)
next
  case (Some kl)
  have "fallbackEntry kl pressF1 = None"
    by (simp add: fallbackEntry_def pressF1_def keycodeMap_def)
  then have "legacyNameOf kl pressF1 = None"
    by (simp add: legacyNameOf_def matchedEntry_def pressF1_def no_legacy_name_F1)
  with Some show ?thesis by (simp add: keyIdOf_filter)
qed

lemma pressF1_never_consumed:
  "keyBuffer (fst (getKeys keyList ts managerF1)) = [pressF1]
   \<and> snd (getKeys keyList ts managerF1) = []"
  by (simp add: getKeys_split managerF1_def pressF1_keyId)

text \<open>The constructor gives a clock to the buttons 0, 1 and 2, and to no other.\<close>

lemma newEventManager_clocks:
  "clocks (buttons (mouseInfo (newEventManager clock0 clock1 clock2 clockM))) b \<noteq> None
   \<longleftrightarrow> b < 3"
  by (auto simp: newEventManager_def)

text \<open>
  A button that has no clock (an index never written in \<^verbatim>\<open>clocks\<close>): the listener throws,
  after it has marked the button as pressed.
\<close>

lemma pointerdown_without_clock:
  assumes "clocks (buttons (mouseInfo em)) (button event) = None"
  shows "\<exists>em'. pointerdown event now em = Inl (TypeError, em')
           \<and> pressed (buttons (mouseInfo em')) (button event) = Some 1
           \<and> times (buttons (mouseInfo em')) = times (buttons (mouseInfo em))"
  using assms by (simp add: pointerdown_def Let_def)

section \<open>Facts about a tick of the window\<close>

lemma writeLog_loop_map:
  "writeLog_loop t entries = map (\<lambda>e. LoggerLog (msg e) (level e) t (obj e)) entries"
  by (induction entries) simp_all

lemma refresh_loop_stims:
  "fst (refresh_loop upd stims) = map (\<lambda>s. if needUpdate s then upd s else s) stims"
  by (induction stims) (simp_all add: split_beta Let_def)

lemma refresh_loop_effects:
  "snd (refresh_loop upd stims) =
   concat (map (\<lambda>s. [RemoveChild (pixi s), StimUpdate s, AddChild (pixi (upd s))])
     (filter needUpdate stims))"
  by (induction stims) (simp_all add: split_beta Let_def)

lemma refresh_effects:
  "snd (refresh upd w) =
   (if windowNeedUpdate w then [SetBackgroundColor (colorInt w)] else [])
   @ concat (map (\<lambda>s. [RemoveChild (pixi s), StimUpdate s, AddChild (pixi (upd s))])
       (filter needUpdate (drawList w)))"
  by (simp add: refresh_def updateIfNeeded_def Let_def split_beta refresh_loop_effects)

lemma refresh_state:
  "fst (refresh upd w) =
   w\<lparr>windowNeedUpdate := False,
     drawList := map (\<lambda>s. if needUpdate s then upd s else s) (drawList w)\<rparr>"
  by (simp add: refresh_def updateIfNeeded_def Let_def split_beta refresh_loop_stims)

text \<open>A tick with no callback registered: its trace and the window it leaves.\<close>

lemma render_None:
  assumes "flipCallback w = None"
  shows "snd (render upd run t w) =
     [RendererRender, GlReadPixels]
     @ map (\<lambda>e. LoggerLog (msg e) (level e) t (obj e)) (msgToBeLogged w)
     @ (if windowNeedUpdate w then [SetBackgroundColor (colorInt w)] else [])
     @ concat (map (\<lambda>s. [RemoveChild (pixi s), StimUpdate s, AddChild (pixi (upd s))])
         (filter needUpdate (drawList w)))"
    and "fst (render upd run t w) =
     w\<lparr>frameCount := frameCount w + 1, msgToBeLogged := [], windowNeedUpdate := False,
       drawList := map (\<lambda>s. if needUpdate s then upd s else s) (drawList w)\<rparr>"
  using assms
  by (simp_all add: render_def writeLogOnFlip_def writeLog_loop_map Let_def split_beta
      refresh_effects refresh_state)

text \<open>
  A tick with the callback \<open>f\<close> registered; the window that \<^verbatim>\<open>_refresh\<close> works on is the
  one the body of the callback returns.
\<close>

lemma render_Some:
  assumes "flipCallback w = Some f"
  shows "snd (render upd run t w) =
     [RendererRender, GlReadPixels]
     @ map (\<lambda>e. LoggerLog (msg e) (level e) t (obj e)) (msgToBeLogged w)
     @ [FlipCallback f (flipCallbackArgs w)]
     @ (if windowNeedUpdate
             (run f (flipCallbackArgs w) (w\<lparr>frameCount := frameCount w + 1, msgToBeLogged := []\<rparr>))
        then [SetBackgroundColor (colorInt
             (run f (flipCallbackArgs w) (w\<lparr>frameCount := frameCount w + 1, msgToBeLogged := []\<rparr>)))]
        else [])
     @ concat (map (\<lambda>s. [RemoveChild (pixi s), StimUpdate s, AddChild (pixi (upd s))])
         (filter needUpdate (drawList
             (run f (flipCallbackArgs w) (w\<lparr>frameCount := frameCount w + 1, msgToBeLogged := []\<rparr>)))))"
    and "fst (render upd run t w) =
     (run f (flipCallbackArgs w) (w\<lparr>frameCount := frameCount w + 1, msgToBeLogged := []\<rparr>))
       \<lparr>windowNeedUpdate := False,
        drawList := map (\<lambda>s. if needUpdate s then upd s else s)
          (drawList
             (run f (flipCallbackArgs w) (w\<lparr>frameCount := frameCount w + 1, msgToBeLogged := []\<rparr>)))\<rparr>"
  using assms
  by (simp_all add: render_def writeLogOnFlip_def writeLog_loop_map Let_def split_beta
      refresh_effects refresh_state)

lemma no_flip_in_logs:
  "filter isFlipCallback (map (\<lambda>e. LoggerLog (msg e) (level e) t (obj e)) entries) = []"
  by (induction entries) simp_all

lemma no_flip_in_updates:
  "filter isFlipCallback
     (concat (map (\<lambda>s. [RemoveChild (pixi s), StimUpdate s, AddChild (pixi (upd s))]) stims)) = []"
  by (induction stims) simp_all

lemma all_logs_in_logs:
  "filter isLoggerLog (map (\<lambda>e. LoggerLog (msg e) (level e) t (obj e)) entries) =
   map (\<lambda>e. LoggerLog (msg e) (level e) t (obj e)) entries"
  by (induction entries) simp_all

lemma no_log_in_updates:
  "filter isLoggerLog
     (concat (map (\<lambda>s. [RemoveChild (pixi s), StimUpdate s, AddChild (pixi (upd s))]) stims)) = []"
  by (induction stims) simp_all

lemma no_render_in_updates:
  "RendererRender \<notin> set
     (concat (map (\<lambda>s. [RemoveChild (pixi s), StimUpdate s, AddChild (pixi (upd s))]) stims))"
  by (induction stims) simp_all

lemma precedes_in_tail: "precedes a b tr \<Longrightarrow> b \<in> set (tl tr)"
proof (induction tr)
  case Nil
  then show ?case by simp
next
  case (Cons x xs)
  then show ?case by (cases xs) auto
qed

text \<open>The tick of the example window, call by call.\<close>

lemma busyWindow_trace:
  "snd (render clearFlag idleBody (100 :: real) busyWindow) =
     [RendererRender, GlReadPixels,
      LoggerLog ''trial start'' 20 100 None, LoggerLog ''stimulus on'' 22 100 (Some ()),
      FlipCallback 0 [1, 2],
      RemoveChild 7, StimUpdate flaggedStim, AddChild 7]"
proof -
  have reg: "flipCallback busyWindow = Some 0" by (simp add: busyWindow_def)
  show ?thesis
    unfolding render_Some(1) [OF reg]
    by (simp add: idleBody_def busyWindow_def flaggedStim_def clearFlag_def)
qed

section \<open>The flip callback (C1)\<close>

text \<open>
  C1, at the example window: \<^verbatim>\<open>render\<close> calls the registered callback and never clears
  \<^verbatim>\<open>_flipCallback\<close>. After a first tick the callback 0 is still registered, and a second
  tick, with no new registration, calls it again with the same arguments.
\<close>

theorem flip_callback_cleared_counterexample:
  "flipCallback (fst (render clearFlag idleBody (100 :: real) busyWindow)) = Some 0
   \<and> filter isFlipCallback
        (snd (render clearFlag idleBody (116 :: real)
               (fst (render clearFlag idleBody (100 :: real) busyWindow))))
      = [FlipCallback 0 [1, 2]]"
proof -
  have reg: "flipCallback busyWindow = Some 0" by (simp add: busyWindow_def)
  have state: "flipCallback (fst (render clearFlag idleBody (100 :: real) busyWindow)) = Some 0"
    unfolding render_Some(2) [OF reg] by (simp add: idleBody_def busyWindow_def)
  have args: "flipCallbackArgs (fst (render clearFlag idleBody (100 :: real) busyWindow)) = [1, 2]"
    unfolding render_Some(2) [OF reg] by (simp add: idleBody_def busyWindow_def)
  have "filter isFlipCallback
        (snd (render clearFlag idleBody (116 :: real)
               (fst (render clearFlag idleBody (100 :: real) busyWindow))))
      = [FlipCallback 0 [1, 2]]"
    by (simp add: render_Some(1) [OF state] args no_flip_in_logs no_flip_in_updates)
  with state show ?thesis by (rule conjI)
qed

text \<open>
  C1, amended: in every tick in which a flip callback is registered and whose callback
  body does not register another, the callback is called exactly once, with the arguments
  stored with it; the registration is kept, not cleared, so the next tick, with no new
  registration, calls the same callback once more with the same arguments.
\<close>

theorem flip_callback_persists:
  assumes reg: "flipCallback w = Some f"
    and keep: "\<forall>g args w'. flipCallback (run g args w') = flipCallback w'
                 \<and> flipCallbackArgs (run g args w') = flipCallbackArgs w'"
  shows "filter isFlipCallback (snd (render upd run (t :: 'n) w))
        = [FlipCallback f (flipCallbackArgs w)]
    \<and> flipCallback (fst (render upd run t w)) = Some f
    \<and> flipCallbackArgs (fst (render upd run t w)) = flipCallbackArgs w
    \<and> filter isFlipCallback (snd (render upd run (t' :: 'n) (fst (render upd run t w))))
        = [FlipCallback f (flipCallbackArgs w)]"
proof -
  have once: "filter isFlipCallback (snd (render upd run u v)) = [FlipCallback f (flipCallbackArgs v)]"
    if "flipCallback v = Some f" for u :: 'n and v
    using that by (simp add: render_Some(1) no_flip_in_logs no_flip_in_updates)
  have cb: "flipCallback (fst (render upd run t w)) = Some f"
    using reg keep by (simp add: render_Some(2))
  have args: "flipCallbackArgs (fst (render upd run t w)) = flipCallbackArgs w"
    using reg keep by (simp add: render_Some(2))
  from once [OF reg, of t] cb args once [OF cb, of t'] show ?thesis by (simp only: simp_thms)
qed

theorem flip_callback_persists_witness:
  "flipCallback busyWindow = Some 0
   \<and> (\<forall>g args w'. flipCallback (idleBody g args w') = flipCallback w'
         \<and> flipCallbackArgs (idleBody g args w') = flipCallbackArgs w')
   \<and> filter isFlipCallback (snd (render clearFlag idleBody (100 :: real) busyWindow))
        = [FlipCallback 0 [1, 2]]
   \<and> flipCallback (fst (render clearFlag idleBody (100 :: real) busyWindow)) = Some 0
   \<and> flipCallbackArgs (fst (render clearFlag idleBody (100 :: real) busyWindow)) = [1, 2]
   \<and> filter isFlipCallback
        (snd (render clearFlag idleBody (116 :: real)
               (fst (render clearFlag idleBody (100 :: real) busyWindow))))
        = [FlipCallback 0 [1, 2]]"
proof -
  have reg: "flipCallback busyWindow = Some 0" by (simp add: busyWindow_def)
  have keep: "\<forall>g args w'. flipCallback (idleBody g args w') = flipCallback w'
         \<and> flipCallbackArgs (idleBody g args w') = flipCallbackArgs w'"
    by (simp add: idleBody_def)
  have args: "flipCallbackArgs busyWindow = [1, 2]" by (simp add: busyWindow_def)
  from flip_callback_persists [OF reg keep, of clearFlag "100 :: real" 116] reg keep args
  show ?thesis by simp
qed

section \<open>Deferred updates (C2)\<close>

text \<open>
  C2, at the example window: the tick renders first and updates afterwards. The flagged
  stimulus of the draw list is updated after the render call of the tick, not before it.
\<close>

theorem update_before_render_counterexample:
  "flaggedStim \<in> set (drawList busyWindow)
   \<and> needUpdate flaggedStim
   \<and> \<not> precedes (StimUpdate flaggedStim) RendererRender
         (snd (render clearFlag idleBody (100 :: real) busyWindow))
   \<and> precedes RendererRender (StimUpdate flaggedStim)
         (snd (render clearFlag idleBody (100 :: real) busyWindow))"
  unfolding busyWindow_trace
  by (simp add: busyWindow_def flaggedStim_def)

text \<open>
  C2, amended: within every tick whose callback body leaves the draw list alone, the render
  call is the first call of the tick and the only one; each drawable of the draw list whose
  flag is set is detached, updated and reattached after that render call, in this order
  and without another call in between, and the draw list keeps its order, each flagged
  element replaced by its updated self. The update is thus applied before the render call
  of the next tick, not before that of the same tick.
\<close>

theorem update_follows_render:
  assumes keep: "\<forall>g args w'. drawList (run g args w') = drawList w'"
    and mem: "s \<in> set (drawList w)"
    and flag: "needUpdate s"
  shows "\<not> precedes (StimUpdate s) RendererRender (snd (render upd run t w))
    \<and> (\<exists>pre post. snd (render upd run t w) =
          RendererRender # pre @ [RemoveChild (pixi s), StimUpdate s, AddChild (pixi (upd s))] @ post)
    \<and> RendererRender \<notin> set (tl (snd (render upd run t w)))
    \<and> drawList (fst (render upd run t w)) =
        map (\<lambda>s. if needUpdate s then upd s else s) (drawList w)"
proof -
  let ?g = "\<lambda>s. [RemoveChild (pixi s), StimUpdate s, AddChild (pixi (upd s))]"
  from mem flag have "s \<in> set (filter needUpdate (drawList w))" by simp
  then obtain ys zs where split: "filter needUpdate (drawList w) = ys @ s # zs"
    by (auto simp: in_set_conv_decomp)
  have tail: "RendererRender \<notin> set (tl (snd (render upd run t w)))"
    by (cases "flipCallback w")
       (auto simp add: render_None(1) render_Some(1) no_render_in_updates)
  have shape: "\<exists>pre post. snd (render upd run t w) =
        RendererRender # pre @ [RemoveChild (pixi s), StimUpdate s, AddChild (pixi (upd s))] @ post"
  proof (cases "flipCallback w")
    case None
    show ?thesis
      by (rule exI [of _ "GlReadPixels
            # map (\<lambda>e. LoggerLog (msg e) (level e) t (obj e)) (msgToBeLogged w)
            @ (if windowNeedUpdate w then [SetBackgroundColor (colorInt w)] else [])
            @ concat (map ?g ys)"],
          rule exI [of _ "concat (map ?g zs)"])
         (simp add: render_None(1) [OF None] split)
  next
    case (Some f)
    let ?w' = "run f (flipCallbackArgs w) (w\<lparr>frameCount := frameCount w + 1, msgToBeLogged := []\<rparr>)"
    show ?thesis
      using keep
      by (intro exI [of _ "GlReadPixels
            # map (\<lambda>e. LoggerLog (msg e) (level e) t (obj e)) (msgToBeLogged w)
            @ [FlipCallback f (flipCallbackArgs w)]
            @ (if windowNeedUpdate ?w' then [SetBackgroundColor (colorInt ?w')] else [])
            @ concat (map ?g ys)"]
          exI [of _ "concat (map ?g zs)"])
         (simp add: render_Some(1) [OF Some] split)
  qed
  have dl: "drawList (fst (render upd run t w)) =
      map (\<lambda>s. if needUpdate s then upd s else s) (drawList w)"
    using keep by (cases "flipCallback w") (simp_all add: render_None(2) render_Some(2))
  from tail have "\<not> precedes (StimUpdate s) RendererRender (snd (render upd run t w))"
    by (auto dest: precedes_in_tail)
  with shape tail dl show ?thesis by (simp only: simp_thms)
qed

theorem update_follows_render_witness:
  "(\<forall>g args w'. drawList (idleBody g args w') = drawList w')
   \<and> flaggedStim \<in> set (drawList busyWindow)
   \<and> needUpdate flaggedStim
   \<and> \<not> precedes (StimUpdate flaggedStim) RendererRender
         (snd (render clearFlag idleBody (100 :: real) busyWindow))
   \<and> (\<exists>pre post. snd (render clearFlag idleBody (100 :: real) busyWindow) =
          RendererRender # pre
          @ [RemoveChild (pixi flaggedStim), StimUpdate flaggedStim,
             AddChild (pixi (clearFlag flaggedStim))] @ post)
   \<and> RendererRender \<notin> set (tl (snd (render clearFlag idleBody (100 :: real) busyWindow)))
   \<and> drawList (fst (render clearFlag idleBody (100 :: real) busyWindow)) =
        map (\<lambda>s. if needUpdate s then clearFlag s else s) (drawList busyWindow)"
proof -
  have keep: "\<forall>g args w'. drawList (idleBody g args w') = drawList w'"
    by (simp add: idleBody_def)
  have mem: "flaggedStim \<in> set (drawList busyWindow)" by (simp add: busyWindow_def)
  have flag: "needUpdate flaggedStim" by (simp add: flaggedStim_def)
  from update_follows_render [OF keep mem flag, of clearFlag "100 :: real"] keep mem flag
  show ?thesis by (simp only: simp_thms)
qed

section \<open>Consuming keys with a filter (C3)\<close>

text \<open>
  C3 asks that, after \<^verbatim>\<open>getKeys\<close> with a filter, every event that matched the filter is
  removed from the buffer and contributes its name to the result. The documentation of
  \<^verbatim>\<open>getKeys\<close> gives the W3C codes as values of \<^verbatim>\<open>keyList\<close> and promises the list of keys
  that were pressed. At a buffer holding one press of F1 and the filter \<^verbatim>\<open>['F1']\<close> the code
  does otherwise: the press matches the filter by its code, yet the reverse table has no
  name for \<^verbatim>\<open>F1\<close>, the read \<^verbatim>\<open>_reversePygletMap['F1']\<close> is undefined and falls into the
  branch meant for the events that did not match; the press is kept in the buffer and the
  result is empty.
\<close>

theorem getKeys_unnamed_match_kept:
  "matchesFilter (pyglet2w3c [''F1'']) pressF1
   \<and> keyBuffer (fst (getKeys (Some [''F1'']) False managerF1)) = [pressF1]
   \<and> snd (getKeys (Some [''F1'']) False managerF1) = []"
proof -
  have norm: "pyglet2w3c [''F1''] = [Str ''F1'']"
    by (simp add: pyglet2w3c_def getProp_def pygletMap_def objectPrototype_def)
  have m: "matchesFilter [Str ''F1''] pressF1"
    by (simp add: matchesFilter_def pressF1_def)
  have id: "keyIdOf (Some [Str ''F1'']) pressF1 = None"
    by (simp add: keyIdOf_def pressF1_def reverseLookup_def no_legacy_name_F1)
  have buf: "keyBuffer managerF1 = [pressF1]"
    by (simp add: managerF1_def)
  from norm m id buf show ?thesis
    by (simp add: getKeys_def)
qed

section \<open>Draining the buffer (C4)\<close>

text \<open>
  C4: for every buffer, \<^verbatim>\<open>getKeys\<close> with no filter and \<^verbatim>\<open>timeStamped = false\<close>, followed by
  a second call with no filter and no capture in between, gives an empty result the
  second time, whatever the second call's \<^verbatim>\<open>timeStamped\<close>. The first call keeps the events
  that have no legacy name; the second finds no name for them either.
\<close>

theorem drain_idempotent:
  "snd (getKeys None ts' (fst (getKeys None False em))) = []"
proof -
  have "List.map_filter (\<lambda>k. map_option (pushed ts' k) (keyIdOf None k))
          (filter (\<lambda>k. keyIdOf None k = None) buf) = []" for buf :: "'a KeyEvent list"
    by (induction buf) simp_all
  then show ?thesis by (simp add: getKeys_split)
qed

section \<open>The round trip through the key tables (C5)\<close>

text \<open>
  C5: for every standard code \<open>c\<close> that exactly one pyglet name is mapped to, the reverse
  table built by the constructor holds a name for \<open>c\<close>, that name is mapped to \<open>c\<close> by the
  pyglet table, and \<^verbatim>\<open>_pyglet2w3c\<close> applied to it returns \<open>c\<close>.
\<close>

theorem pyglet_roundtrip:
  assumes "\<exists>!name. map_of pygletMap name = Some c"
  shows "\<exists>name. getProp reversePygletMap c = Some (Str name)
           \<and> map_of pygletMap name = Some c
           \<and> pyglet2w3c [name] = [Str c]"
proof -
  from assms obtain n where "map_of pygletMap n = Some c" by blast
  then have "(n, c) \<in> set pygletMap" by (rule map_of_SomeD)
  then obtain n' where rev: "map_of reversePygletMap c = Some n'"
    using reverse_complete by blast
  then have "(n', c) \<in> set pygletMap" by (rule reverse_sound)
  then have fwd: "map_of pygletMap n' = Some c"
    using distinct_pygletMap_keys by simp
  have "getProp reversePygletMap c = Some (Str n')"
    by (simp add: getProp_def rev)
  moreover have "pyglet2w3c [n'] = [Str c]"
    by (simp add: pyglet2w3c_map getProp_def fwd)
  ultimately show ?thesis using fwd by blast
qed

theorem pyglet_roundtrip_witness:
  "(\<exists>!name. map_of pygletMap name = Some ''KeyA'')
   \<and> (\<exists>name. getProp reversePygletMap ''KeyA'' = Some (Str name)
           \<and> map_of pygletMap name = Some ''KeyA''
           \<and> pyglet2w3c [name] = [Str ''KeyA''])"
proof -
  have "(''a'', ''KeyA'') \<in> set pygletMap"
    by (simp add: pygletMap_def)
  then have h: "\<exists>!name. map_of pygletMap name = Some ''KeyA''"
    by (rule pygletMap_unique_name)
  from h pyglet_roundtrip [OF h] show ?thesis by (rule conjI)
qed

section \<open>Normalising a key list (C6)\<close>

text \<open>
  C6, at the input \<^verbatim>\<open>['toString']\<close>: the name is no key of the pyglet table, yet the read
  \<^verbatim>\<open>_pygletMap['toString']\<close> finds the method inherited from \<^verbatim>\<open>Object.prototype\<close>, whose
  \<^verbatim>\<open>typeof\<close> is not \<^verbatim>\<open>'undefined'\<close>; the output holds that function, not the input name.
\<close>

theorem pyglet2w3c_inherited_name:
  "map_of pygletMap ''toString'' = None
   \<and> pyglet2w3c [''toString''] = [ProtoMember ''toString'']"
  by (simp add: pyglet2w3c_def getProp_def pygletMap_def objectPrototype_def)

section \<open>Flushing the log queue (C7)\<close>

text \<open>
  C7: \<^verbatim>\<open>logOnFlip\<close> appends to the queue; the flush of a tick dispatches every queued
  entry, in queue order, each with the one time read at the top of the flush, and leaves
  the queue empty, so that a second flush dispatches nothing; the logger calls of a whole
  tick are exactly those of its flush.
\<close>

theorem log_flush_fifo:
  "snd (writeLogOnFlip t w) = map (\<lambda>e. LoggerLog (msg e) (level e) t (obj e)) (msgToBeLogged w)
   \<and> msgToBeLogged (fst (writeLogOnFlip t w)) = []
   \<and> snd (writeLogOnFlip t' (fst (writeLogOnFlip t w))) = []
   \<and> filter isLoggerLog (snd (render upd run t w)) =
       map (\<lambda>e. LoggerLog (msg e) (level e) t (obj e)) (msgToBeLogged w)
   \<and> msgToBeLogged (logOnFlip m l ob w) = msgToBeLogged w @ [\<lparr>msg = m, level = l, obj = ob\<rparr>]"
proof -
  have a: "snd (writeLogOnFlip t w) =
      map (\<lambda>e. LoggerLog (msg e) (level e) t (obj e)) (msgToBeLogged w)"
    by (simp add: writeLogOnFlip_def writeLog_loop_map)
  have b: "msgToBeLogged (fst (writeLogOnFlip t w)) = []"
    by (simp add: writeLogOnFlip_def)
  have c: "snd (writeLogOnFlip t' (fst (writeLogOnFlip t w))) = []"
    by (simp add: writeLogOnFlip_def)
  have d: "filter isLoggerLog (snd (render upd run t w)) =
       map (\<lambda>e. LoggerLog (msg e) (level e) t (obj e)) (msgToBeLogged w)"
    by (cases "flipCallback w")
       (simp_all add: render_None(1) render_Some(1) all_logs_in_logs no_log_in_updates)
  have e: "msgToBeLogged (logOnFlip m l ob w) = msgToBeLogged w @ [\<lparr>msg = m, level = l, obj = ob\<rparr>]"
    by (simp add: logOnFlip_def)
  from a b c d e show ?thesis by simp
qed

section \<open>Elapsed time of a button (C8)\<close>




section \<open>The two time stamps (C9)\<close>

text \<open>
  C9: for one reading \<open>r\<close> of the monotonic reference time, the key press that the keydown
  listener buffers carries \<open>r / 1000\<close>, and every logger call of the flush carries \<open>r\<close>
  itself: the time of a key press is that of a log entry divided by 1000.
\<close>

theorem key_and_log_timestamps:
  "timestamp (last (keyBuffer (keydown c k kc r em))) = r / 1000
   \<and> map logTimeOf (snd (writeLogOnFlip r w)) = replicate (length (msgToBeLogged w)) (Some r)"
proof -
  have "map logTimeOf (writeLog_loop r entries) = replicate (length entries) (Some r)"
    for entries :: "'b LogEntry list"
    by (induction entries) simp_all
  then show ?thesis by (simp add: keydown_def writeLogOnFlip_def)
qed

section \<open>Clearing events (C10)\<close>

text \<open>
  C10: whatever its argument, \<^verbatim>\<open>clearEvents\<close> does what \<^verbatim>\<open>clearKeys\<close> does: the key buffer
  becomes empty, and the pointer state (position, wheel, buttons, clocks) is unchanged.
\<close>

theorem clearEvents_is_clearKeys:
  "clearEvents attribs em = clearKeys em
   \<and> keyBuffer (clearEvents attribs em) = []
   \<and> mouseInfo (clearEvents attribs em) = mouseInfo em"
  by (simp add: clearEvents_def clearKeys_def)

end
